theory Spec2Isabelle
  imports Main "HOL-Library.AList"
begin

section \<open>Python values, errors and outcomes\<close>

text \<open>
  Objects are referred to by identity.  An Entity, a Component and a System live in
  separate stores, so a reference is an address in the store of its class.
\<close>

type_synonym eid = nat
type_synonym cid = nat
type_synonym sid = nat

text \<open>A scene node reference (the target of a \<open>parent\<close> link or the argument of \<open>add\<close>).\<close>

datatype node = EntityNode eid | ComponentNode cid

text \<open>
  The values the methods of \<open>ECSSManager\<close> receive and return.  \<open>ClassObj b\<close> is a class
  object, \<open>b\<close> telling whether it is a subclass of \<open>collections.abc.Iterator\<close>;
  \<open>OtherObj\<close> is an instance of any other class.
\<close>

datatype pyobj =
    PyNone
  | EntityRef eid
  | ComponentRef cid
  | SystemRef sid
  | ClassObj bool
  | OtherObj

text \<open>
  The first three errors are the ones the interpreter raises; the last four are the error
  kinds the specification names.
\<close>

datatype error =
    TypeError
  | IndexError
  | AttributeError
  | UnknownEntity
  | DuplicateRegistration
  | InvalidHierarchy
  | OutOfRange

text \<open>
  A call either raises, leaving the state it had reached, or returns a value and the
  state.
\<close>

datatype ('a, 's) result = Raised error 's | Returned 'a 's

section \<open>Components (Component.py)\<close>

text \<open>
  \<open>Component.__init__\<close> and its three concrete subclasses.  Matrices are opaque values of
  type \<open>'m\<close>.  \<open>name\<close>, \<open>type\<close> and \<open>id\<close> default to \<open>None\<close>; \<open>parent\<close> starts as the object
  itself.  \<open>Camera.__init__\<close> sets no \<open>_children\<close>.
\<close>

record component_obj =
  name :: "string option"
  ctype :: "string option"
  ident :: "int option"
  parent :: node

record 'm BasicTransform = component_obj +
  trs :: 'm
  l2world :: 'm
  l2cam :: 'm
  children :: "node list"

record 'm Camera = component_obj +
  projMat :: 'm
  root2cam :: 'm

record 'm RenderMesh = component_obj +
  mesh_trs :: 'm
  mesh_children :: "node list"

datatype 'm component =
    Transform "'m BasicTransform"
  | Cam "'m Camera"
  | Mesh "'m RenderMesh"

datatype comp_class = BasicTransformClass | CameraClass | RenderMeshClass

text \<open>\<open>type(component)\<close>.\<close>

fun class_of :: "'m component \<Rightarrow> comp_class" where
  "class_of (Transform t) = BasicTransformClass"
| "class_of (Cam c) = CameraClass"
| "class_of (Mesh r) = RenderMeshClass"

text \<open>The \<open>parent\<close> property and its setter, common to the three classes.\<close>

fun get_parent :: "'m component \<Rightarrow> node" where
  "get_parent (Transform t) = parent t"
| "get_parent (Cam c) = parent c"
| "get_parent (Mesh r) = parent r"

fun set_parent :: "node \<Rightarrow> 'm component \<Rightarrow> 'm component" where
  "set_parent p (Transform t) = Transform (t\<lparr>parent := p\<rparr>)"
| "set_parent p (Cam c) = Cam (c\<lparr>parent := p\<rparr>)"
| "set_parent p (Mesh r) = Mesh (r\<lparr>parent := p\<rparr>)"

text \<open>
  \<open>BasicTransform.update(**kwargs)\<close>: three independent tests, in the order of the source
  (\<open>l2world\<close>, \<open>trs\<close>, \<open>l2cam\<close>).  The keyword arguments are a dictionary from names to
  values.
\<close>

definition BasicTransform_update ::
  "'m BasicTransform \<Rightarrow> (string \<rightharpoonup> 'm) \<Rightarrow> 'm BasicTransform" where
  "BasicTransform_update self kwargs =
     (let s1 = (case kwargs ''l2world'' of Some v \<Rightarrow> self\<lparr>l2world := v\<rparr> | None \<Rightarrow> self);
          s2 = (case kwargs ''trs'' of Some v \<Rightarrow> s1\<lparr>trs := v\<rparr> | None \<Rightarrow> s1);
          s3 = (case kwargs ''l2cam'' of Some v \<Rightarrow> s2\<lparr>l2cam := v\<rparr> | None \<Rightarrow> s2)
      in s3)"

text \<open>\<open>Camera.update(**kwargs)\<close>.\<close>

definition Camera_update :: "'m Camera \<Rightarrow> (string \<rightharpoonup> 'm) \<Rightarrow> 'm Camera" where
  "Camera_update self kwargs =
     (case kwargs ''root2cam'' of Some v \<Rightarrow> self\<lparr>root2cam := v\<rparr> | None \<Rightarrow> self)"

section \<open>Entities\<close>

text \<open>
  Modelled from the spec: the Entity class (Entity.py is not among the sources).  Section 3
  gives an Entity a name (a string), a parent reference that is the Entity itself while it
  is unattached, an ordered sequence of child Entities and the collection of its attached
  Components.
\<close>

record entity =
  ename :: string
  eparent :: eid
  echildren :: "eid list"
  ecomponents :: "cid list"

text \<open>The object store: every address denotes an object of its class.\<close>

record 'm scene =
  ent :: "eid \<Rightarrow> entity"
  comp :: "cid \<Rightarrow> 'm component"

text \<open>
  Modelled from the spec: \<open>Entity.getParent\<close> (Entity.py is not among the sources) returns
  the parent reference.
\<close>

definition getParent :: "'m scene \<Rightarrow> eid \<Rightarrow> eid" where
  "getParent sc e = eparent (ent sc e)"

text \<open>
  Modelled from the spec: the descendants of an Entity (Entity.py is not among the sources).
  \<open>x\<close> is a descendant of \<open>a\<close> when it is reachable from \<open>a\<close> through the child sequences.
\<close>

inductive descendant :: "'m scene \<Rightarrow> eid \<Rightarrow> eid \<Rightarrow> bool" for sc :: "'m scene" where
  child: "List.member (echildren (ent sc a)) x \<Longrightarrow> descendant sc a x"
| below: "descendant sc a y \<Longrightarrow> List.member (echildren (ent sc y)) x \<Longrightarrow> descendant sc a x"

code_pred descendant .

text \<open>
  Modelled from the spec: \<open>Entity.add\<close> (Entity.py is not among the sources).  Section 4.1:
  \<open>add(child)\<close> attaches \<open>child\<close> and sets \<open>child.parent = self\<close>; an Entity may not be added
  as its own descendant, and the attempt fails with \<open>InvalidHierarchy\<close>.  The check comes
  before any write, so a failing \<open>add\<close> leaves the scene as it was.
\<close>

definition Entity_add :: "'m scene \<Rightarrow> eid \<Rightarrow> node \<Rightarrow> (unit, 'm scene) result" where
  "Entity_add sc self child =
     (case child of
        ComponentNode c \<Rightarrow>
          Returned ()
            (sc\<lparr>ent := (ent sc)(self := (ent sc self)\<lparr>ecomponents := ecomponents (ent sc self) @ [c]\<rparr>),
                comp := (comp sc)(c := set_parent (EntityNode self) (comp sc c))\<rparr>)
      | EntityNode ch \<Rightarrow>
          if ch = self \<or> descendant sc ch self then Raised InvalidHierarchy sc
          else Returned ()
            (sc\<lparr>ent := ((ent sc)(self := (ent sc self)\<lparr>echildren := echildren (ent sc self) @ [ch]\<rparr>))
                          (ch := (ent sc ch)\<lparr>eparent := self\<rparr>)\<rparr>))"

text \<open>
  A scene is tree-like when every attached Entity is in the child sequence of its parent
  and no Entity is its own descendant.
\<close>

definition tree_like :: "'m scene \<Rightarrow> bool" where
  "tree_like sc \<longleftrightarrow>
     (\<forall>x. eparent (ent sc x) \<noteq> x \<longrightarrow> x \<in> set (echildren (ent sc (eparent (ent sc x)))))
     \<and> (\<forall>x. \<not> descendant sc x x)"

text \<open>
  \<open>str.lower\<close>: the letters \<open>A\<close> to \<open>Z\<close> go to lower case.  No other character has a
  lower case among the letters of \<open>"root"\<close>, so the comparison with \<open>"root"\<close> is the one of
  the source.
\<close>

definition lower_char :: "char \<Rightarrow> char" where
  "lower_char c =
     (let n = (of_char c :: nat) in if 65 \<le> n \<and> n \<le> 90 then char_of (n + 32) else c)"

definition lower :: "string \<Rightarrow> string" where
  "lower s = map lower_char s"

section \<open>The registry (ECSSManager.py)\<close>

record manager =
  systems :: "sid list"
  components :: "cid list"
  entities :: "eid list"
  cameras :: "cid list"
  entities_components :: "(eid \<times> cid option list) list"
  next_entity_id :: nat
  root :: "eid option"

text \<open>The attributes as \<open>__init__\<close> assigns them.\<close>

definition init_attributes :: manager where
  "init_attributes =
     \<lparr>systems = [], components = [], entities = [], cameras = [],
      entities_components = [], next_entity_id = 0, root = None\<rparr>"

text \<open>
  \<open>createEntity\<close>.  The dictionary is an association list in insertion order, its keys
  compared by identity; assigning to a key that is present replaces its value in place,
  assigning to a new key appends.  There is no test for an Entity that is already there.
\<close>

definition createEntity ::
  "manager \<Rightarrow> 'm scene \<Rightarrow> pyobj \<Rightarrow> (pyobj, manager) result" where
  "createEntity m sc entity =
     (case entity of
        EntityRef e \<Rightarrow>
          (let m1 = m\<lparr>entities := entities m @ [e]\<rparr>;
               m2 = m1\<lparr>entities_components := AList.update e [None] (entities_components m1)\<rparr>;
               m3 = (if lower (ename (ent sc e)) = ''root'' then m2\<lparr>root := Some e\<rparr> else m2)
           in Returned entity m3)
      | _ \<Rightarrow> Returned entity m)"

text \<open>\<open>createSystem\<close>.\<close>

definition createSystem :: "manager \<Rightarrow> pyobj \<Rightarrow> (pyobj, manager) result" where
  "createSystem m system =
     (case system of
        SystemRef s \<Rightarrow> Returned system (m\<lparr>systems := systems m @ [s]\<rparr>)
      | _ \<Rightarrow> Returned system m)"

text \<open>
  \<open>isinstance(el, type(component))\<close> for an element of a value list: \<open>None\<close> is an instance
  of no component class, and the three component classes have no subclasses.
\<close>

definition isinstance_el :: "'m scene \<Rightarrow> cid option \<Rightarrow> comp_class \<Rightarrow> bool" where
  "isinstance_el sc el cls = (case el of None \<Rightarrow> False | Some c' \<Rightarrow> class_of (comp sc c') = cls)"

text \<open>How the loop over the value list of the entity ends.\<close>

datatype 'm inner_exit =
    Exhausted
  | InnerRaised error "'m scene"
  | InnerReturned "cid option list" "'m scene"

text \<open>
  The loop \<open>for el in value\<close> of \<open>addComponent\<close>; the last argument is the part of \<open>value\<close>
  still to visit.  On an element of the class of \<open>component\<close> the body only rebinds the loop
  variable.  On the first other element it calls \<open>key.add(component)\<close>, stores the component
  in \<open>value\<close> (in slot 0 when that holds \<open>None\<close>, at the end otherwise) and returns.
\<close>

fun for_el ::
  "'m scene \<Rightarrow> eid \<Rightarrow> cid \<Rightarrow> cid option list \<Rightarrow> cid option list \<Rightarrow> 'm inner_exit" where
  "for_el sc key c val [] = Exhausted"
| "for_el sc key c val (el # els) =
     (if isinstance_el sc el (class_of (comp sc c)) then for_el sc key c val els
      else (case Entity_add sc key (ComponentNode c) of
              Raised e sc' \<Rightarrow> InnerRaised e sc'
            | Returned u sc' \<Rightarrow>
                (case val of
                   [] \<Rightarrow> InnerRaised IndexError sc'
                 | v0 # vs \<Rightarrow>
                     if v0 = None then InnerReturned (Some c # vs) sc'
                     else InnerReturned (val @ [Some c]) sc')))"

text \<open>
  The loop \<open>for key, value in self._entities_components.items()\<close>; the last argument is the
  part of the dictionary still to visit.  The value list is shared with the dictionary, so
  a write to it is a write to the entry of \<open>key\<close>.  Falling off the end returns \<open>None\<close>.
\<close>

fun for_items ::
  "manager \<Rightarrow> 'm scene \<Rightarrow> eid \<Rightarrow> cid \<Rightarrow> (eid \<times> cid option list) list \<Rightarrow>
   (pyobj, manager \<times> 'm scene) result" where
  "for_items m sc entity c [] = Returned PyNone (m, sc)"
| "for_items m sc entity c ((key, val) # items) =
     (if key = entity then
        (case for_el sc key c val val of
           Exhausted \<Rightarrow> for_items m sc entity c items
         | InnerRaised e sc' \<Rightarrow> Raised e (m, sc')
         | InnerReturned val' sc' \<Rightarrow>
             Returned (ComponentRef c)
               (m\<lparr>entities_components := AList.update key val' (entities_components m)\<rparr>, sc'))
      else for_items m sc entity c items)"

text \<open>
  \<open>addComponent\<close>.  The component goes into \<open>_cameras\<close> or \<open>_components\<close> before the
  dictionary is searched.  The guard admits an Entity as first and a Component as second
  argument; an Entity is taken not to pass for a Component, as the docstring has it (only a
  component is added with this method).
\<close>

definition addComponent ::
  "manager \<Rightarrow> 'm scene \<Rightarrow> pyobj \<Rightarrow> pyobj \<Rightarrow> (pyobj, manager \<times> 'm scene) result" where
  "addComponent m sc entity component =
     (case (entity, component) of
        (EntityRef e, ComponentRef c) \<Rightarrow>
          (let m1 = (if class_of (comp sc c) = CameraClass
                     then m\<lparr>cameras := cameras m @ [c]\<rparr>
                     else m\<lparr>components := components m @ [c]\<rparr>)
           in for_items m1 sc e c (entities_components m1))
      | _ \<Rightarrow> Returned PyNone (m, sc))"

text \<open>
  \<open>addEntityChild\<close>: \<open>add\<close> is called unless the parent reference of the child already is
  the parent.
\<close>

definition addEntityChild ::
  "manager \<Rightarrow> 'm scene \<Rightarrow> pyobj \<Rightarrow> pyobj \<Rightarrow> (pyobj, manager \<times> 'm scene) result" where
  "addEntityChild m sc entity_parent entity_child =
     (case (entity_parent, entity_child) of
        (EntityRef p, EntityRef ch) \<Rightarrow>
          (if getParent sc ch \<noteq> p then
             (case Entity_add sc p (EntityNode ch) of
                Raised e sc' \<Rightarrow> Raised e (m, sc')
              | Returned u sc' \<Rightarrow> Returned PyNone (m, sc'))
           else Returned PyNone (m, sc))
      | _ \<Rightarrow> Returned PyNone (m, sc))"

text \<open>
  \<open>traverse_visit\<close>.  \<open>and\<close> evaluates \<open>issubclass\<close> only for a System; \<open>issubclass\<close> raises
  \<open>TypeError\<close> when its first argument is not a class; the body of the \<open>if\<close> is \<open>pass\<close>.
\<close>

definition traverse_visit ::
  "manager \<Rightarrow> 'm scene \<Rightarrow> pyobj \<Rightarrow> pyobj \<Rightarrow> (pyobj, manager \<times> 'm scene) result" where
  "traverse_visit m sc system iterator =
     (case system of
        SystemRef s \<Rightarrow>
          (case iterator of
             ClassObj is_iterator \<Rightarrow>
               (if is_iterator then Returned PyNone (m, sc) else Returned PyNone (m, sc))
           | _ \<Rightarrow> Raised TypeError (m, sc))
      | _ \<Rightarrow> Returned PyNone (m, sc))"

section \<open>Systems and the visitor protocol\<close>

text \<open>
  A System as \<open>accept\<close> sees it: the methods it looks up by name.  \<open>None\<close> is a method the
  object does not have, and calling it raises \<open>AttributeError\<close>.  A method receives the
  component and may read and write the scene.
\<close>

record 'm system_obj =
  apply_method :: "(cid \<Rightarrow> 'm scene \<Rightarrow> (unit, 'm scene) result) option"
  applyCamera_method :: "(cid \<Rightarrow> 'm scene \<Rightarrow> (unit, 'm scene) result) option"

definition call_method ::
  "(cid \<Rightarrow> 'm scene \<Rightarrow> (unit, 'm scene) result) option \<Rightarrow> cid \<Rightarrow> 'm scene \<Rightarrow>
   (unit, 'm scene) result" where
  "call_method meth self sc =
     (case meth of None \<Rightarrow> Raised AttributeError sc | Some f \<Rightarrow> f self sc)"

text \<open>\<open>BasicTransform.accept\<close>: \<open>system.apply(self)\<close>, then \<open>system.applyCamera(self)\<close>.\<close>

definition BasicTransform_accept ::
  "'m system_obj \<Rightarrow> cid \<Rightarrow> 'm scene \<Rightarrow> (unit, 'm scene) result" where
  "BasicTransform_accept system self sc =
     (case call_method (apply_method system) self sc of
        Raised e sc' \<Rightarrow> Raised e sc'
      | Returned u sc' \<Rightarrow> call_method (applyCamera_method system) self sc')"

text \<open>\<open>Camera.accept\<close> and \<open>RenderMesh.accept\<close>: \<open>system.apply(self)\<close>.\<close>

definition Camera_accept ::
  "'m system_obj \<Rightarrow> cid \<Rightarrow> 'm scene \<Rightarrow> (unit, 'm scene) result" where
  "Camera_accept system self sc = call_method (apply_method system) self sc"

definition RenderMesh_accept ::
  "'m system_obj \<Rightarrow> cid \<Rightarrow> 'm scene \<Rightarrow> (unit, 'm scene) result" where
  "RenderMesh_accept system self sc = call_method (apply_method system) self sc"

text \<open>\<open>component.accept(system)\<close>, dispatched on the class of the component.\<close>

definition accept :: "'m system_obj \<Rightarrow> cid \<Rightarrow> 'm scene \<Rightarrow> (unit, 'm scene) result" where
  "accept system self sc =
     (case class_of (comp sc self) of
        BasicTransformClass \<Rightarrow> BasicTransform_accept system self sc
      | CameraClass \<Rightarrow> Camera_accept system self sc
      | RenderMeshClass \<Rightarrow> RenderMesh_accept system self sc)"

text \<open>
  Modelled from the spec: the System variants (System.py is not among the sources), section
  2.
\<close>

datatype system_kind = TransformSystem | CameraSystem | RenderSystem

text \<open>
  Modelled from the spec: the Component classes a System variant supports (System.py is not
  among the sources).  Section 4.3: \<open>TransformSystem.apply(transform)\<close>,
  \<open>CameraSystem.applyCamera(transform | camera)\<close>, \<open>RenderSystem.apply(renderMesh)\<close>.
\<close>

fun supports :: "system_kind \<Rightarrow> comp_class \<Rightarrow> bool" where
  "supports TransformSystem cls = (cls = BasicTransformClass)"
| "supports CameraSystem cls = (cls = BasicTransformClass \<or> cls = CameraClass)"
| "supports RenderSystem cls = (cls = RenderMeshClass)"

text \<open>
  Modelled from the spec: a System variant as an object (System.py is not among the
  sources).  Section 4.2: a System receiving a Component kind it does not support is a
  no-op, not a failure; so both entry points exist on every variant and do nothing outside
  the operation of section 4.3.  The numeric body of that operation is the black box
  \<open>body\<close>.
\<close>

definition System_obj :: "system_kind \<Rightarrow> (cid \<Rightarrow> 'm scene \<Rightarrow> 'm scene) \<Rightarrow> 'm system_obj" where
  "System_obj k body =
     \<lparr>apply_method = Some (\<lambda>c sc.
        if k \<noteq> CameraSystem \<and> supports k (class_of (comp sc c))
        then Returned () (body c sc) else Returned () sc),
      applyCamera_method = Some (\<lambda>c sc.
        if k = CameraSystem \<and> supports k (class_of (comp sc c))
        then Returned () (body c sc) else Returned () sc)\<rparr>"

section \<open>The singleton (ECSSManager.\_\_new\_\_ and \_\_init\_\_)\<close>

text \<open>
  The class attribute \<open>_instance\<close>, the objects of class \<open>ECSSManager\<close> by address (\<open>None\<close>
  for an object without attributes yet) and the next free address.
\<close>

record process =
  cls_instance :: "nat option"
  objects :: "nat \<Rightarrow> manager option"
  next_addr :: nat

text \<open>\<open>__new__\<close>: allocate on the first call, return \<open>_instance\<close> on every call.\<close>

definition ECSSManager_new :: "process \<Rightarrow> nat \<times> process" where
  "ECSSManager_new p =
     (case cls_instance p of
        None \<Rightarrow>
          (let r = next_addr p
           in (r, p\<lparr>cls_instance := Some r, objects := (objects p)(r := None),
                     next_addr := Suc r\<rparr>))
      | Some r \<Rightarrow> (r, p))"

text \<open>\<open>__init__\<close>: assign every attribute of \<open>self\<close>.\<close>

definition ECSSManager_init :: "nat \<Rightarrow> process \<Rightarrow> process" where
  "ECSSManager_init self p = p\<lparr>objects := (objects p)(self := Some init_attributes)\<rparr>"

text \<open>
  The call \<open>ECSSManager()\<close>: \<open>__new__\<close>, then \<open>__init__\<close> on the object it returned (which
  is an instance of the class on both paths).
\<close>

definition ECSSManager :: "process \<Rightarrow> nat \<times> process" where
  "ECSSManager p = (case ECSSManager_new p of (r, p1) \<Rightarrow> (r, ECSSManager_init r p1))"

text \<open>
  What a client does between two constructions: it constructs again, or it calls a method
  of the registry, which rewrites the attributes of one object.
\<close>

datatype client_step = Construct | Method nat "manager \<Rightarrow> manager"

fun client :: "client_step list \<Rightarrow> process \<Rightarrow> process" where
  "client [] p = p"
| "client (Construct # steps) p = client steps (snd (ECSSManager p))"
| "client (Method r f # steps) p =
     client steps (p\<lparr>objects := (objects p)(r := map_option f (objects p r))\<rparr>)"

section \<open>Sequences of registry calls\<close>

text \<open>The state a call leaves behind, whether it returned or raised.\<close>

fun state_after :: "('a, 's) result \<Rightarrow> 's" where
  "state_after (Raised e s) = s"
| "state_after (Returned v s) = s"

datatype registry_call =
    CreateEntity pyobj
  | CreateSystem pyobj
  | AddComponent pyobj pyobj
  | AddEntityChild pyobj pyobj
  | TraverseVisit pyobj pyobj

fun exec :: "registry_call \<Rightarrow> manager \<times> 'm scene \<Rightarrow> manager \<times> 'm scene" where
  "exec (CreateEntity x) (m, sc) = (state_after (createEntity m sc x), sc)"
| "exec (CreateSystem x) (m, sc) = (state_after (createSystem m x), sc)"
| "exec (AddComponent x y) (m, sc) = state_after (addComponent m sc x y)"
| "exec (AddEntityChild x y) (m, sc) = state_after (addEntityChild m sc x y)"
| "exec (TraverseVisit x y) (m, sc) = state_after (traverse_visit m sc x y)"

fun run :: "registry_call list \<Rightarrow> manager \<times> 'm scene \<Rightarrow> manager \<times> 'm scene" where
  "run [] s = s"
| "run (call # calls) s = run calls (exec call s)"

section \<open>Concrete scenes\<close>

text \<open>
  A scene of unattached objects: every Entity is its own parent and has no children and no
  components; components 7 and 9 are Cameras, component 8 is a RenderMesh, every other one
  is a BasicTransform.  Entity 0 is named \<open>Root\<close>.
\<close>

definition entity0 :: "eid \<Rightarrow> entity" where
  "entity0 e =
     \<lparr>ename = (if e = 0 then ''Root'' else ''node''), eparent = e,
      echildren = [], ecomponents = []\<rparr>"

definition transform0 :: "cid \<Rightarrow> nat BasicTransform" where
  "transform0 c =
     \<lparr>name = None, ctype = None, ident = None, parent = ComponentNode c,
      trs = 0, l2world = 0, l2cam = 0, children = []\<rparr>"

definition component0 :: "cid \<Rightarrow> nat component" where
  "component0 c =
     (if c = 7 \<or> c = 9 then
        Cam \<lparr>name = None, ctype = None, ident = None, parent = ComponentNode c,
             projMat = 0, root2cam = 0\<rparr>
      else if c = 8 then
        Mesh \<lparr>name = None, ctype = None, ident = None, parent = ComponentNode c,
              mesh_trs = 0, mesh_children = []\<rparr>
      else Transform (transform0 c))"

definition scene0 :: "nat scene" where
  "scene0 = \<lparr>ent = entity0, comp = component0\<rparr>"

text \<open>Entity 1 after \<open>add\<close> of component 5.\<close>

definition scene1 :: "nat scene" where
  "scene1 =
     \<lparr>ent = entity0(1 := \<lparr>ename = ''node'', eparent = 1, echildren = [], ecomponents = [5]\<rparr>),
      comp = component0(5 := Transform ((transform0 5)\<lparr>parent := EntityNode 1\<rparr>))\<rparr>"

text \<open>Entity 2 is the child of entity 1, and entity 3 the child of entity 2.\<close>

definition scene2 :: "nat scene" where
  "scene2 =
     \<lparr>ent = entity0
        (1 := \<lparr>ename = ''node'', eparent = 1, echildren = [2], ecomponents = []\<rparr>,
         2 := \<lparr>ename = ''node'', eparent = 1, echildren = [3], ecomponents = []\<rparr>,
         3 := \<lparr>ename = ''node'', eparent = 2, echildren = [], ecomponents = []\<rparr>),
      comp = component0\<rparr>"

text \<open>A System body that overwrites the visited transform's \<open>l2world\<close>.\<close>

definition body0 :: "cid \<Rightarrow> nat scene \<Rightarrow> nat scene" where
  "body0 c sc =
     sc\<lparr>comp := (comp sc)(c := (case comp sc c of
                                   Transform t \<Rightarrow> Transform (t\<lparr>l2world := 1\<rparr>)
                                 | other \<Rightarrow> other))\<rparr>"

text \<open>The registry after \<open>createEntity\<close> of entity 1.\<close>

definition manager_e1 :: manager where
  "manager_e1 =
     \<lparr>systems = [], components = [], entities = [1], cameras = [],
      entities_components = [(1, [None])], next_entity_id = 0, root = None\<rparr>"

text \<open>The registry after \<open>createEntity\<close> of entity 1 and \<open>addComponent\<close> of component 5 to it.\<close>

definition manager1 :: manager where
  "manager1 =
     \<lparr>systems = [], components = [5], entities = [1], cameras = [],
      entities_components = [(1, [Some 5])], next_entity_id = 0, root = None\<rparr>"

text \<open>
  A registry with every collection in use: System 0 is registered, then entities 0 (the
  root) and 1; entity 1 has received the BasicTransform 5 and the Camera 7.
\<close>

definition manager3 :: manager where
  "manager3 =
     \<lparr>systems = [0], components = [5], entities = [0, 1], cameras = [7],
      entities_components = [(0, [None]), (1, [Some 5, Some 7])], next_entity_id = 0,
      root = Some 0\<rparr>"

definition scene3 :: "nat scene" where
  "scene3 =
     \<lparr>ent = entity0(1 := \<lparr>ename = ''node'', eparent = 1, echildren = [], ecomponents = [5, 7]\<rparr>),
      comp = component0
        (5 := Transform ((transform0 5)\<lparr>parent := EntityNode 1\<rparr>),
         7 := Cam \<lparr>name = None, ctype = None, ident = None, parent = EntityNode 1,
                  projMat = 0, root2cam = 0\<rparr>)\<rparr>"

section \<open>Properties of the loops of addComponent\<close>

lemma Entity_add_component:
  "Entity_add sc key (ComponentNode c) =
     Returned ()
       (sc\<lparr>ent := (ent sc)(key := (ent sc key)\<lparr>ecomponents := ecomponents (ent sc key) @ [c]\<rparr>),
           comp := (comp sc)(c := set_parent (EntityNode key) (comp sc c))\<rparr>)"
  by (simp add: Entity_add_def)

lemma for_el_no_raise:
  "(els \<noteq> [] \<longrightarrow> val \<noteq> []) \<Longrightarrow> for_el sc key c val els \<noteq> InnerRaised e sc'"
  by (induction els) (auto simp: Entity_add_component split: list.splits)

lemma for_el_same_class:
  "\<forall>el \<in> set els. isinstance_el sc el (class_of (comp sc c)) \<Longrightarrow> for_el sc key c val els = Exhausted"
  by (induction els) auto

lemma for_items_absent:
  "entity \<notin> fst ` set items \<Longrightarrow> for_items m sc entity c items = Returned PyNone (m, sc)"
  by (induction items) auto

lemma for_items_no_raise:
  "for_items m sc entity c items \<noteq> Raised e s"
proof (induction items)
  case Nil
  then show ?case by simp
next
  case (Cons kv items)
  have "for_el sc k c v v \<noteq> InnerRaised e' sc'" for k v e' sc'
    by (rule for_el_no_raise) simp
  with Cons show ?case by (cases kv) (auto split: inner_exit.splits)
qed

lemma update_present_keys:
  "k \<in> fst ` set al \<Longrightarrow> fst ` set (AList.update k v al) = fst ` set al"
  by (auto simp: dom_update)

lemma for_items_keys:
  "set items \<subseteq> set (entities_components m) \<Longrightarrow>
   fst ` set (entities_components (fst (state_after (for_items m sc entity c items))))
     = fst ` set (entities_components m)"
proof (induction items)
  case Nil
  then show ?case by simp
next
  case (Cons kv items)
  obtain key val where kv: "kv = (key, val)" by (cases kv)
  with Cons.prems have "key \<in> fst ` set (entities_components m)" by force
  then have upd: "fst ` set (AList.update key v (entities_components m))
      = fst ` set (entities_components m)" for v
    by (rule update_present_keys)
  from Cons have IH: "fst ` set (entities_components (fst (state_after (for_items m sc entity c items))))
     = fst ` set (entities_components m)" by simp
  show ?case
  proof (cases "key = entity")
    case False
    with IH kv show ?thesis by simp
  next
    case True
    show ?thesis
    proof (cases "for_el sc key c val val")
      case Exhausted
      with IH kv True show ?thesis by simp
    next
      case (InnerRaised e' sc')
      with kv True show ?thesis by simp
    next
      case (InnerReturned val' sc')
      with kv True upd show ?thesis by simp
    qed
  qed
qed

lemma addComponent_keys:
  "fst ` set (entities_components (fst (state_after (addComponent m sc x y))))
     = fst ` set (entities_components m)"
  by (cases x; cases y) (simp_all add: addComponent_def Let_def for_items_keys)

lemma createEntity_keys:
  "fst ` set (entities_components (state_after (createEntity m sc x)))
     = fst ` set (entities_components m) \<union> (case x of EntityRef e \<Rightarrow> {e} | _ \<Rightarrow> {})"
  by (cases x) (auto simp: createEntity_def Let_def dom_update)

lemma exec_keys:
  "fst ` set (entities_components (fst (exec call s)))
     = fst ` set (entities_components (fst s)) \<union> {e. call = CreateEntity (EntityRef e)}"
proof (cases s)
  case (Pair m sc)
  show ?thesis
  proof (cases call)
    case (CreateEntity x)
    with Pair show ?thesis by (cases x) (auto simp: createEntity_keys)
  next
    case (CreateSystem x)
    with Pair show ?thesis by (cases x) (auto simp: createSystem_def)
  next
    case (AddComponent x y)
    with Pair show ?thesis by (simp add: addComponent_keys)
  next
    case (AddEntityChild x y)
    with Pair show ?thesis
      by (cases x; cases y) (auto simp: addEntityChild_def split: result.splits)
  next
    case (TraverseVisit x y)
    with Pair show ?thesis
      by (cases x; cases y) (auto simp: traverse_visit_def)
  qed
qed

lemma run_keys:
  "fst ` set (entities_components (fst (run calls s)))
     = fst ` set (entities_components (fst s)) \<union> {e. CreateEntity (EntityRef e) \<in> set calls}"
proof (induction calls arbitrary: s)
  case Nil
  then show ?case by simp
next
  case (Cons call calls)
  show ?case by (auto simp: Cons.IH exec_keys)
qed

lemma for_items_None:
  "for_items m sc entity c items = Returned PyNone s \<Longrightarrow> s = (m, sc)"
  by (induction items) (auto split: if_splits inner_exit.splits)

lemma addComponent_no_raise:
  "\<exists>v s. addComponent m sc x y = Returned v s"
proof (cases "addComponent m sc x y")
  case (Raised e s)
  then have False
    by (cases x; cases y) (simp_all add: addComponent_def Let_def for_items_no_raise)
  then show ?thesis ..
next
  case (Returned v s)
  then show ?thesis by blast
qed

lemma addComponent_absent_key:
  assumes "e \<notin> fst ` set (entities_components m)"
  shows "addComponent m sc (EntityRef e) (ComponentRef c)
     = Returned PyNone
         (if class_of (comp sc c) = CameraClass then m\<lparr>cameras := cameras m @ [c]\<rparr>
          else m\<lparr>components := components m @ [c]\<rparr>, sc)"
  using assms by (simp add: addComponent_def for_items_absent)

section \<open>Evaluation on the concrete scenes\<close>

lemma lower_node: "lower ''node'' = ''node''"
  by code_simp

lemma lower_Root: "lower ''Root'' = ''root''"
  by code_simp

lemma run_manager1:
  "run [CreateEntity (EntityRef 1), AddComponent (EntityRef 1) (ComponentRef 5)]
       (init_attributes, scene0) = (manager1, scene1)"
  by (simp add: createEntity_def addComponent_def init_attributes_def scene0_def scene1_def
      manager1_def entity0_def component0_def isinstance_el_def Entity_add_component lower_node)

lemma createEntity_root:
  "createEntity init_attributes scene0 (EntityRef 0)
     = Returned (EntityRef 0)
         (init_attributes\<lparr>entities := [0], entities_components := [(0, [None])],
                           root := Some 0\<rparr>)"
  by (simp add: createEntity_def init_attributes_def scene0_def entity0_def lower_Root)

lemma run_manager3:
  "run [CreateSystem (SystemRef 0), CreateEntity (EntityRef 0), CreateEntity (EntityRef 1),
        AddComponent (EntityRef 1) (ComponentRef 5), AddComponent (EntityRef 1) (ComponentRef 7)]
       (init_attributes, scene0) = (manager3, scene3)"
  by (simp add: createSystem_def createEntity_def addComponent_def init_attributes_def
      scene0_def scene3_def manager3_def entity0_def component0_def isinstance_el_def
      Entity_add_component lower_node lower_Root transform0_def fun_eq_iff)

section \<open>addComponent on an entity that has a component of the same class\<close>

text \<open>
  Claim C1 asks that \<open>addComponent(E, c)\<close> replace the component of the class of \<open>c\<close> that \<open>E\<close>
  owns, and that the old instance leave \<open>_components\<close>.  The code does neither.  Entity 1 is
  registered and receives the BasicTransform 5; a second BasicTransform, 6, is then added.
  The loop body only rebinds its variable, so the call returns \<open>None\<close>, the entry of entity
  1 still holds component 5 and not 6, the entity itself still owns 5 alone, and
  \<open>_components\<close> holds both 5 and 6.
\<close>

theorem addComponent_second_transform:
  "run [CreateEntity (EntityRef 1), AddComponent (EntityRef 1) (ComponentRef 5)]
       (init_attributes, scene0) = (manager1, scene1)
   \<and> class_of (comp scene1 5) = class_of (comp scene1 6)
   \<and> addComponent manager1 scene1 (EntityRef 1) (ComponentRef 6)
       = Returned PyNone (manager1\<lparr>components := [5, 6]\<rparr>, scene1)
   \<and> entities_components (manager1\<lparr>components := [5, 6]\<rparr>) = [(1, [Some 5])]
   \<and> ecomponents (ent scene1 1) = [5]"
proof -
  have "addComponent manager1 scene1 (EntityRef 1) (ComponentRef 6)
       = Returned PyNone (manager1\<lparr>components := [5, 6]\<rparr>, scene1)"
    by (simp add: addComponent_def scene1_def manager1_def component0_def isinstance_el_def)
  moreover have "entities_components (manager1\<lparr>components := [5, 6]\<rparr>) = [(1, [Some 5])]"
    by (simp add: manager1_def)
  moreover have "ecomponents (ent scene1 1) = [5]"
    by (simp add: scene1_def)
  moreover have "class_of (comp scene1 5) = class_of (comp scene1 6)"
    by (simp add: scene1_def component0_def)
  ultimately show ?thesis using run_manager1 by simp
qed

text \<open>
  The same for every registry: when every element of the entry of \<open>e\<close> is a component of
  the class of \<open>c\<close>, nothing is attached and nothing is removed.
\<close>

lemma for_items_same_class:
  assumes same: "\<forall>el \<in> set val. isinstance_el sc el (class_of (comp sc c))"
  shows "(\<forall>v. (e, v) \<in> set items \<longrightarrow> v = val) \<Longrightarrow>
         for_items m sc e c items = Returned PyNone (m, sc)"
proof (induction items)
  case Nil
  show ?case by simp
next
  case (Cons kv items)
  obtain key v where kv: "kv = (key, v)" by (cases kv)
  from Cons.prems have rest: "\<forall>v. (e, v) \<in> set items \<longrightarrow> v = val" by simp
  have IH: "for_items m sc e c items = Returned PyNone (m, sc)"
    by (rule Cons.IH [OF rest])
  show ?case
  proof (cases "key = e")
    case True
    with Cons.prems kv have "v = val" by simp
    with same have "for_el sc e c v v = Exhausted"
      by (simp add: for_el_same_class)
    with True kv IH show ?thesis by simp
  next
    case False
    with kv IH show ?thesis by simp
  qed
qed

lemma addComponent_same_class:
  assumes "map_of (entities_components m) e = Some val"
    and "distinct (map fst (entities_components m))"
    and "\<forall>el \<in> set val. isinstance_el sc el (class_of (comp sc c))"
    and "class_of (comp sc c) \<noteq> CameraClass"
  shows "addComponent m sc (EntityRef e) (ComponentRef c)
           = Returned PyNone (m\<lparr>components := components m @ [c]\<rparr>, sc)"
proof -
  have "v = val" if "(e, v) \<in> set (entities_components m)" for v
  proof -
    from that assms(2) have "map_of (entities_components m) e = Some v" by simp
    with assms(1) show ?thesis by simp
  qed
  then have "\<forall>v. (e, v) \<in> set (entities_components m) \<longrightarrow> v = val" by blast
  then have "for_items (m\<lparr>components := components m @ [c]\<rparr>) sc e c (entities_components m)
      = Returned PyNone (m\<lparr>components := components m @ [c]\<rparr>, sc)"
    by (rule for_items_same_class [OF assms(3)])
  with assms(4) show ?thesis by (simp add: addComponent_def)
qed

section \<open>traverse\_visit\<close>

lemma traverse_visit_changes_nothing:
  "traverse_visit m sc system iterator = Returned PyNone (m, sc)
   \<or> traverse_visit m sc system iterator = Raised TypeError (m, sc)"
  by (cases system; cases iterator) (simp_all add: traverse_visit_def)

text \<open>
  Claim C2 asks that \<open>traverse_visit(s, root)\<close> walk the subtree of \<open>root\<close> and call
  \<open>accept(s)\<close> on every attached component.  The body of the method is \<open>pass\<close> behind a
  test.  On the registry in which entity 1 carries the BasicTransform 5: with the Entity as
  second argument \<open>issubclass\<close> raises \<open>TypeError\<close>; with an Iterator class the call returns;
  in both cases the scene is as before.  A visit of component 5 by a TransformSystem that
  writes \<open>l2world\<close> would have changed the scene.
\<close>

theorem traverse_visit_visits_nothing:
  "traverse_visit manager1 scene1 (SystemRef 0) (EntityRef 1) = Raised TypeError (manager1, scene1)
   \<and> traverse_visit manager1 scene1 (SystemRef 0) (ClassObj True) = Returned PyNone (manager1, scene1)
   \<and> ecomponents (ent scene1 1) = [5]
   \<and> accept (System_obj TransformSystem body0) 5 scene1
       = Returned () (scene1\<lparr>comp := (comp scene1)
           (5 := Transform ((transform0 5)\<lparr>parent := EntityNode 1, l2world := 1\<rparr>))\<rparr>)
   \<and> l2world (transform0 5) = 0"
  by (simp add: traverse_visit_def accept_def BasicTransform_accept_def call_method_def
      System_obj_def body0_def scene1_def transform0_def)

section \<open>createEntity on a registered entity\<close>

text \<open>
  Claim C3, as stated, fails: the second \<open>createEntity\<close> of the same Entity returns it
  instead of raising \<open>DuplicateRegistration\<close>.
\<close>

theorem createEntity_twice_counterexample:
  "createEntity init_attributes scene0 (EntityRef 1) = Returned (EntityRef 1) manager_e1
   \<and> createEntity manager_e1 scene0 (EntityRef 1)
       = Returned (EntityRef 1) (manager_e1\<lparr>entities := [1, 1]\<rparr>)"
  by (simp add: createEntity_def init_attributes_def manager_e1_def scene0_def entity0_def
      lower_node)

text \<open>
  Claim C3, amended: for every Entity \<open>e\<close> registered by an earlier \<open>createEntity\<close>, a further
  \<open>createEntity(e)\<close> does not fail.  It returns \<open>e\<close>, appends \<open>e\<close> to \<open>_entities\<close> once more,
  and resets the entry of \<open>e\<close> in \<open>_entities_components\<close> to \<open>[None]\<close>; the keys of the
  dictionary, the entries of the other entities and the other collections are unchanged.
\<close>

theorem createEntity_registered_again:
  assumes "CreateEntity (EntityRef e) \<in> set calls"
    and "run calls (init_attributes, sc0) = (m, sc)"
  shows "\<exists>m'. createEntity m sc (EntityRef e) = Returned (EntityRef e) m'
           \<and> entities m' = entities m @ [e]
           \<and> map_of (entities_components m') e = Some [None]
           \<and> fst ` set (entities_components m') = fst ` set (entities_components m)
           \<and> (\<forall>k. k \<noteq> e \<longrightarrow>
                 map_of (entities_components m') k = map_of (entities_components m) k)
           \<and> systems m' = systems m \<and> components m' = components m \<and> cameras m' = cameras m"
proof -
  have "fst ` set (entities_components (fst (run calls (init_attributes, sc0))))
      = {e. CreateEntity (EntityRef e) \<in> set calls}"
    by (simp add: run_keys init_attributes_def)
  with assms have "e \<in> fst ` set (entities_components m)" by simp
  then have "fst ` set (AList.update e [None] (entities_components m))
      = fst ` set (entities_components m)"
    by (rule update_present_keys)
  then show ?thesis by (simp add: createEntity_def Let_def update_conv')
qed

theorem createEntity_registered_again_witness:
  "CreateEntity (EntityRef 1)
     \<in> set [CreateEntity (EntityRef 1), AddComponent (EntityRef 1) (ComponentRef 5)]
   \<and> run [CreateEntity (EntityRef 1), AddComponent (EntityRef 1) (ComponentRef 5)]
        (init_attributes, scene0) = (manager1, scene1)
   \<and> createEntity manager1 scene1 (EntityRef 1)
       = Returned (EntityRef 1)
           (manager1\<lparr>entities := [1, 1], entities_components := [(1, [None])]\<rparr>)"
proof -
  have reg: "CreateEntity (EntityRef 1)
     \<in> set [CreateEntity (EntityRef 1), AddComponent (EntityRef 1) (ComponentRef 5)]"
    by simp
  from createEntity_registered_again [OF reg run_manager1]
  obtain m' where "createEntity manager1 scene1 (EntityRef 1) = Returned (EntityRef 1) m'"
    by blast
  moreover have "createEntity manager1 scene1 (EntityRef 1)
       = Returned (EntityRef 1)
           (manager1\<lparr>entities := [1, 1], entities_components := [(1, [None])]\<rparr>)"
    by (simp add: createEntity_def manager1_def scene1_def lower_node)
  ultimately show ?thesis using reg run_manager1 by simp
qed

section \<open>addComponent on an entity that was never registered\<close>

text \<open>
  Claim C4, as stated, fails: \<open>addComponent\<close> on an unregistered Entity returns \<open>None\<close>
  instead of raising \<open>UnknownEntity\<close>.
\<close>

theorem addComponent_unregistered_counterexample:
  "addComponent init_attributes scene0 (EntityRef 1) (ComponentRef 5)
     = Returned PyNone (init_attributes\<lparr>components := [5]\<rparr>, scene0)"
  by (simp add: addComponent_def init_attributes_def scene0_def component0_def)

text \<open>
  Claim C4, amended: for every Entity \<open>e\<close> that no \<open>createEntity\<close> call has registered since
  the registry was initialised, and every Component \<open>c\<close>, \<open>addComponent(e, c)\<close> does not fail:
  it returns \<open>None\<close> and attaches nothing (the scene, \<open>_entities\<close> and
  \<open>_entities_components\<close> are unchanged).
\<close>

theorem addComponent_never_registered:
  assumes "CreateEntity (EntityRef e) \<notin> set calls"
    and "run calls (init_attributes, sc0) = (m, sc)"
  shows "\<exists>m'. addComponent m sc (EntityRef e) (ComponentRef c) = Returned PyNone (m', sc)
           \<and> entities_components m' = entities_components m
           \<and> entities m' = entities m"
proof -
  have "fst ` set (entities_components (fst (run calls (init_attributes, sc0))))
      = {e. CreateEntity (EntityRef e) \<in> set calls}"
    by (simp add: run_keys init_attributes_def)
  with assms have "e \<notin> fst ` set (entities_components m)" by simp
  then show ?thesis by (simp add: addComponent_absent_key)
qed

theorem addComponent_never_registered_witness:
  "CreateEntity (EntityRef 2)
     \<notin> set [CreateEntity (EntityRef 1), AddComponent (EntityRef 1) (ComponentRef 5)]
   \<and> run [CreateEntity (EntityRef 1), AddComponent (EntityRef 1) (ComponentRef 5)]
        (init_attributes, scene0) = (manager1, scene1)
   \<and> addComponent manager1 scene1 (EntityRef 2) (ComponentRef 6)
        = Returned PyNone (manager1\<lparr>components := [5, 6]\<rparr>, scene1)"
proof -
  have a: "CreateEntity (EntityRef 2)
     \<notin> set [CreateEntity (EntityRef 1), AddComponent (EntityRef 1) (ComponentRef 5)]"
    by simp
  from addComponent_never_registered [OF a run_manager1, of 6]
  obtain m' where "addComponent manager1 scene1 (EntityRef 2) (ComponentRef 6)
      = Returned PyNone (m', scene1)" by blast
  moreover have "addComponent manager1 scene1 (EntityRef 2) (ComponentRef 6)
        = Returned PyNone (manager1\<lparr>components := [5, 6]\<rparr>, scene1)"
    by (simp add: addComponent_def manager1_def scene1_def component0_def)
  ultimately show ?thesis using a run_manager1 by simp
qed

section \<open>What addComponent changes when it attaches nothing\<close>

text \<open>
  Claim C5, as stated, fails: entity 2 is not registered, \<open>addComponent\<close> attaches nothing
  to it, and yet the component has entered \<open>_components\<close> (component 6, a BasicTransform)
  or \<open>_cameras\<close> (component 9, a Camera).
\<close>

theorem addComponent_unregistered_collections_counterexample:
  "components manager3 = [5]
   \<and> components (fst (state_after
        (addComponent manager3 scene3 (EntityRef 2) (ComponentRef 6)))) = [5, 6]
   \<and> cameras manager3 = [7]
   \<and> cameras (fst (state_after
        (addComponent manager3 scene3 (EntityRef 2) (ComponentRef 9)))) = [7, 9]"
  by (simp add: addComponent_def manager3_def scene3_def component0_def)

text \<open>
  Claim C5, amended: \<open>addComponent\<close> never raises.  When \<open>addComponent(e, c)\<close> attaches
  nothing and returns \<open>None\<close>, as it does for every Entity \<open>e\<close> that is not registered, the
  component \<open>c\<close> has been appended at the end of the global collection of its class
  (\<open>_cameras\<close> for a Camera, \<open>_components\<close> otherwise) and nothing else has changed: the
  other global collection, \<open>_entities\<close>, \<open>_systems\<close>, \<open>_entities_components\<close>,
  \<open>_next_entity_id\<close>, \<open>_root\<close> and the scene are as before.  When the first argument is not
  an Entity or the second is not a Component, the call returns \<open>None\<close> and changes nothing
  at all.
\<close>

theorem addComponent_nothing_attached:
  "(\<exists>v s. addComponent m sc x y = Returned v s)
   \<and> (addComponent m sc (EntityRef e) (ComponentRef c) = Returned PyNone (m', sc') \<longrightarrow>
        sc' = sc \<and> entities m' = entities m \<and> systems m' = systems m
        \<and> entities_components m' = entities_components m \<and> root m' = root m
        \<and> next_entity_id m' = next_entity_id m
        \<and> (if class_of (comp sc c) = CameraClass
            then cameras m' = cameras m @ [c] \<and> components m' = components m
            else components m' = components m @ [c] \<and> cameras m' = cameras m))
   \<and> (e \<notin> fst ` set (entities_components m) \<longrightarrow>
        (\<exists>m'. addComponent m sc (EntityRef e) (ComponentRef c) = Returned PyNone (m', sc)))
   \<and> ((\<forall>e. x \<noteq> EntityRef e) \<or> (\<forall>c. y \<noteq> ComponentRef c) \<longrightarrow>
        addComponent m sc x y = Returned PyNone (m, sc))"
proof -
  let ?m1 = "if class_of (comp sc c) = CameraClass then m\<lparr>cameras := cameras m @ [c]\<rparr>
             else m\<lparr>components := components m @ [c]\<rparr>"
  have attached: "(m', sc') = (?m1, sc)"
    if r: "addComponent m sc (EntityRef e) (ComponentRef c) = Returned PyNone (m', sc')"
  proof -
    from r have "for_items ?m1 sc e c (entities_components ?m1) = Returned PyNone (m', sc')"
      by (simp add: addComponent_def Let_def)
    then show ?thesis by (rule for_items_None)
  qed
  have second: "sc' = sc \<and> entities m' = entities m \<and> systems m' = systems m
        \<and> entities_components m' = entities_components m \<and> root m' = root m
        \<and> next_entity_id m' = next_entity_id m
        \<and> (if class_of (comp sc c) = CameraClass
            then cameras m' = cameras m @ [c] \<and> components m' = components m
            else components m' = components m @ [c] \<and> cameras m' = cameras m)"
    if r: "addComponent m sc (EntityRef e) (ComponentRef c) = Returned PyNone (m', sc')"
    using attached [OF r] by (auto split: if_splits)
  have third: "\<exists>m'. addComponent m sc (EntityRef e) (ComponentRef c) = Returned PyNone (m', sc)"
    if "e \<notin> fst ` set (entities_components m)"
    using that by (simp add: addComponent_absent_key)
  have fourth: "addComponent m sc x y = Returned PyNone (m, sc)"
    if "(\<forall>e. x \<noteq> EntityRef e) \<or> (\<forall>c. y \<noteq> ComponentRef c)"
    using that by (cases x; cases y) (simp_all add: addComponent_def)
  from addComponent_no_raise second third fourth show ?thesis by blast
qed

theorem addComponent_nothing_attached_witness:
  "2 \<notin> fst ` set (entities_components manager3)
   \<and> addComponent manager3 scene3 (EntityRef 2) (ComponentRef 6)
       = Returned PyNone (manager3\<lparr>components := [5, 6]\<rparr>, scene3)
   \<and> components manager3 = [5]
   \<and> cameras (manager3\<lparr>components := [5, 6]\<rparr>) = [7]
   \<and> entities (manager3\<lparr>components := [5, 6]\<rparr>) = [0, 1]
   \<and> systems (manager3\<lparr>components := [5, 6]\<rparr>) = [0]
   \<and> entities_components (manager3\<lparr>components := [5, 6]\<rparr>) = [(0, [None]), (1, [Some 5, Some 7])]
   \<and> root (manager3\<lparr>components := [5, 6]\<rparr>) = Some 0
   \<and> addComponent manager3 scene3 (EntityRef 2) (ComponentRef 9)
       = Returned PyNone (manager3\<lparr>cameras := [7, 9]\<rparr>, scene3)
   \<and> cameras manager3 = [7]
   \<and> components (manager3\<lparr>cameras := [7, 9]\<rparr>) = [5]
   \<and> addComponent manager3 scene3 PyNone (ComponentRef 6) = Returned PyNone (manager3, scene3)"
proof -
  have unreg: "2 \<notin> fst ` set (entities_components manager3)"
    by (simp add: manager3_def)
  have cls6: "class_of (comp scene3 6) \<noteq> CameraClass"
    by (simp add: scene3_def component0_def)
  have cls9: "class_of (comp scene3 9) = CameraClass"
    by (simp add: scene3_def component0_def)
  from addComponent_nothing_attached [of manager3 scene3 _ _ 2 6] unreg
  obtain m6 where r6: "addComponent manager3 scene3 (EntityRef 2) (ComponentRef 6)
      = Returned PyNone (m6, scene3)"
    by blast
  with addComponent_nothing_attached [of manager3 scene3 _ _ 2 6 m6 scene3] cls6
  have f6: "entities m6 = entities manager3 \<and> systems m6 = systems manager3
      \<and> entities_components m6 = entities_components manager3 \<and> root m6 = root manager3
      \<and> next_entity_id m6 = next_entity_id manager3
      \<and> components m6 = components manager3 @ [6] \<and> cameras m6 = cameras manager3"
    by simp
  then have m6: "m6 = manager3\<lparr>components := [5, 6]\<rparr>"
    by (simp add: manager3_def)
  from addComponent_nothing_attached [of manager3 scene3 _ _ 2 9] unreg
  obtain m9 where r9: "addComponent manager3 scene3 (EntityRef 2) (ComponentRef 9)
      = Returned PyNone (m9, scene3)"
    by blast
  with addComponent_nothing_attached [of manager3 scene3 _ _ 2 9 m9 scene3] cls9
  have f9: "entities m9 = entities manager3 \<and> systems m9 = systems manager3
      \<and> entities_components m9 = entities_components manager3 \<and> root m9 = root manager3
      \<and> next_entity_id m9 = next_entity_id manager3
      \<and> cameras m9 = cameras manager3 @ [9] \<and> components m9 = components manager3"
    by simp
  then have m9: "m9 = manager3\<lparr>cameras := [7, 9]\<rparr>"
    by (simp add: manager3_def)
  from addComponent_nothing_attached [of manager3 scene3 PyNone "ComponentRef 6"]
  have g: "addComponent manager3 scene3 PyNone (ComponentRef 6) = Returned PyNone (manager3, scene3)"
    by simp
  from unreg r6 m6 r9 m9 g show ?thesis by (simp add: manager3_def)
qed

section \<open>The scene stays a tree\<close>

lemma descendant_has_child:
  "descendant sc a x \<Longrightarrow> echildren (ent sc a) \<noteq> []"
  by (induction rule: descendant.induct) auto

lemma descendant_same_children:
  assumes "\<And>y. echildren (ent sc' y) = echildren (ent sc y)"
  shows "descendant sc' a x = descendant sc a x"
proof
  assume "descendant sc' a x"
  then show "descendant sc a x"
    by (induction rule: descendant.induct) (auto simp: assms intro: descendant.intros)
next
  assume "descendant sc a x"
  then show "descendant sc' a x"
    by (induction rule: descendant.induct) (auto simp: assms [symmetric] intro: descendant.intros)
qed

lemma unattached_tree_like:
  assumes "\<forall>e. eparent (ent sc e) = e \<and> echildren (ent sc e) = []"
  shows "tree_like sc"
proof -
  have "\<not> descendant sc x x" for x
    using descendant_has_child [of sc x x] assms by blast
  with assms show ?thesis by (simp add: tree_like_def)
qed

lemma Entity_add_component_tree_like:
  assumes "tree_like sc" and "Entity_add sc key (ComponentNode c) = Returned u sc'"
  shows "tree_like sc'"
proof -
  from assms(2) have sc': "sc' = sc\<lparr>ent := (ent sc)(key := (ent sc key)\<lparr>ecomponents := ecomponents (ent sc key) @ [c]\<rparr>),
           comp := (comp sc)(c := set_parent (EntityNode key) (comp sc c))\<rparr>"
    by (simp add: Entity_add_def)
  then have ch: "echildren (ent sc' y) = echildren (ent sc y)" for y by simp
  from sc' have pa: "eparent (ent sc' y) = eparent (ent sc y)" for y by simp
  have "descendant sc' a x = descendant sc a x" for a x
    by (rule descendant_same_children) (rule ch)
  with assms(1) ch pa show ?thesis by (simp add: tree_like_def)
qed

lemma descendant_trans:
  "descendant sc b c \<Longrightarrow> descendant sc a b \<Longrightarrow> descendant sc a c"
  by (induction rule: descendant.induct) (auto intro: descendant.intros)

lemma Entity_add_entity_Returned:
  assumes "Entity_add sc self (EntityNode ch) = Returned u sc'"
  shows "ch \<noteq> self \<and> \<not> descendant sc ch self
     \<and> sc' = sc\<lparr>ent := ((ent sc)(self := (ent sc self)\<lparr>echildren := echildren (ent sc self) @ [ch]\<rparr>))
                          (ch := (ent sc ch)\<lparr>eparent := self\<rparr>)\<rparr>"
  using assms by (simp add: Entity_add_def split: if_splits)

lemma Entity_add_entity_Raised:
  assumes "Entity_add sc self (EntityNode ch) = Raised e sc'"
  shows "sc' = sc"
  using assms by (simp add: Entity_add_def split: if_splits)

lemma Entity_add_entity_tree_like:
  assumes tl: "tree_like sc" and add: "Entity_add sc self (EntityNode ch) = Returned u sc'"
  shows "tree_like sc'"
proof -
  from Entity_add_entity_Returned [OF add]
  have ne: "ch \<noteq> self" and nd: "\<not> descendant sc ch self"
    and sc': "sc' = sc\<lparr>ent := ((ent sc)(self := (ent sc self)\<lparr>echildren := echildren (ent sc self) @ [ch]\<rparr>))
                          (ch := (ent sc ch)\<lparr>eparent := self\<rparr>)\<rparr>"
    by simp_all
  from sc' ne have ch: "echildren (ent sc' y) =
      (if y = self then echildren (ent sc self) @ [ch] else echildren (ent sc y))" for y
    by simp
  from sc' ne have pa: "eparent (ent sc' y) = (if y = ch then self else eparent (ent sc y))" for y
    by simp
  have desc: "descendant sc a x \<or> ((a = self \<or> descendant sc a self) \<and> (x = ch \<or> descendant sc ch x))"
    if "descendant sc' a x" for a x
    using that
  proof (induction rule: descendant.induct)
    case (child a x)
    then show ?case by (auto simp: ch intro: descendant.child split: if_splits)
  next
    case (below a y x)
    show ?case
    proof (cases "y = self")
      case True
      with below.IH ne nd have a_self: "a = self \<or> descendant sc a self" by blast
      from below.hyps(2) True have "x \<in> set (echildren (ent sc self)) \<or> x = ch"
        by (auto simp: ch)
      then show ?thesis
      proof
        assume x: "x \<in> set (echildren (ent sc self))"
        from below.IH True ne nd have "descendant sc a self" by blast
        with x show ?thesis by (auto intro: descendant.below)
      next
        assume "x = ch"
        with below.IH True ne nd show ?thesis by blast
      qed
    next
      case False
      with below.hyps(2) have x: "x \<in> set (echildren (ent sc y))" by (simp add: ch)
      from below.IH show ?thesis
      proof
        assume "descendant sc a y"
        with x show ?thesis by (auto intro: descendant.below)
      next
        assume r: "(a = self \<or> descendant sc a self) \<and> (y = ch \<or> descendant sc ch y)"
        with x have "descendant sc ch x" by (auto intro: descendant.intros)
        with r show ?thesis by blast
      qed
    qed
  qed
  have acyclic: "\<not> descendant sc' x x" for x
  proof
    assume "descendant sc' x x"
    from desc [OF this] tl have "(x = self \<or> descendant sc x self) \<and> (x = ch \<or> descendant sc ch x)"
      by (simp add: tree_like_def)
    then have "descendant sc ch self"
      using ne by (auto intro: descendant_trans)
    with nd show False ..
  qed
  have agree: "x \<in> set (echildren (ent sc' (eparent (ent sc' x))))"
    if "eparent (ent sc' x) \<noteq> x" for x
  proof (cases "x = ch")
    case True
    then show ?thesis by (simp add: pa ch)
  next
    case False
    with that have "eparent (ent sc x) \<noteq> x" by (simp add: pa)
    with tl have "x \<in> set (echildren (ent sc (eparent (ent sc x))))" by (simp add: tree_like_def)
    with False show ?thesis by (auto simp: pa ch)
  qed
  from acyclic agree show ?thesis by (simp add: tree_like_def)
qed

lemma for_el_tree_like:
  assumes "tree_like sc"
  shows "for_el sc key c val els = InnerReturned val' sc' \<Longrightarrow> tree_like sc'"
    and "for_el sc key c val els = InnerRaised e sc' \<Longrightarrow> tree_like sc'"
proof (induction els)
  case Nil
  { case 1 then show ?case by simp }
  { case 2 then show ?case by simp }
next
  case (Cons el els)
  { case 1
    show ?case
    proof (cases "isinstance_el sc el (class_of (comp sc c))")
      case True
      with 1 Cons.IH(1) show ?thesis by simp
    next
      case False
      obtain sc1 where add: "Entity_add sc key (ComponentNode c) = Returned () sc1"
        by (simp add: Entity_add_def)
      with assms have "tree_like sc1" by (rule Entity_add_component_tree_like)
      with 1 False add show ?thesis by (auto split: list.splits if_splits)
    qed }
  { case 2
    show ?case
    proof (cases "isinstance_el sc el (class_of (comp sc c))")
      case True
      with 2 Cons.IH(2) show ?thesis by simp
    next
      case False
      obtain sc1 where add: "Entity_add sc key (ComponentNode c) = Returned () sc1"
        by (simp add: Entity_add_def)
      with assms have "tree_like sc1" by (rule Entity_add_component_tree_like)
      with 2 False add show ?thesis by (auto split: list.splits if_splits)
    qed }
qed

lemma for_items_tree_like:
  assumes "tree_like sc"
  shows "tree_like (snd (state_after (for_items m sc entity c items)))"
proof (induction items)
  case Nil
  from assms show ?case by simp
next
  case (Cons kv items)
  obtain key val where kv: "kv = (key, val)" by (cases kv)
  show ?case
  proof (cases "key = entity")
    case False
    with Cons kv show ?thesis by simp
  next
    case True
    show ?thesis
    proof (cases "for_el sc key c val val")
      case Exhausted
      with Cons kv True show ?thesis by simp
    next
      case (InnerRaised e sc')
      with assms have "tree_like sc'" by (rule for_el_tree_like(2))
      with InnerRaised kv True show ?thesis by simp
    next
      case (InnerReturned val' sc')
      with assms have "tree_like sc'" by (rule for_el_tree_like(1))
      with InnerReturned kv True show ?thesis by simp
    qed
  qed
qed

lemma exec_tree_like:
  assumes "tree_like (snd s)"
  shows "tree_like (snd (exec call s))"
proof (cases s)
  case (Pair m sc)
  with assms have tl: "tree_like sc" by simp
  show ?thesis
  proof (cases call)
    case (CreateEntity x)
    with Pair tl show ?thesis by simp
  next
    case (CreateSystem x)
    with Pair tl show ?thesis by simp
  next
    case (AddComponent x y)
    have "tree_like (snd (state_after (addComponent m sc x y)))"
      using tl by (cases x; cases y) (simp_all add: addComponent_def Let_def for_items_tree_like)
    with Pair AddComponent show ?thesis by simp
  next
    case (AddEntityChild x y)
    have "tree_like (snd (state_after (addEntityChild m sc x y)))"
    proof (cases "\<exists>p ch. x = EntityRef p \<and> y = EntityRef ch \<and> getParent sc ch \<noteq> p")
      case True
      then obtain p ch where xy: "x = EntityRef p" "y = EntityRef ch" "getParent sc ch \<noteq> p"
        by blast
      show ?thesis
      proof (cases "Entity_add sc p (EntityNode ch)")
        case (Raised e sc')
        then have "sc' = sc" by (rule Entity_add_entity_Raised)
        with Raised xy tl show ?thesis by (simp add: addEntityChild_def)
      next
        case (Returned u sc')
        with tl have "tree_like sc'" by (rule Entity_add_entity_tree_like)
        with Returned xy show ?thesis by (simp add: addEntityChild_def)
      qed
    next
      case False
      then have "addEntityChild m sc x y = Returned PyNone (m, sc)"
        by (cases x; cases y) (auto simp: addEntityChild_def)
      with tl show ?thesis by simp
    qed
    with Pair AddEntityChild show ?thesis by simp
  next
    case (TraverseVisit x y)
    have "snd (state_after (traverse_visit m sc x y)) = sc"
      by (cases x; cases y) (simp_all add: traverse_visit_def)
    with Pair TraverseVisit tl show ?thesis by simp
  qed
qed

lemma run_tree_like:
  "tree_like (snd s) \<Longrightarrow> tree_like (snd (run calls s))"
  by (induction calls arbitrary: s) (simp_all add: exec_tree_like)

lemma descendant_parent_differs:
  assumes "tree_like sc" and desc: "descendant sc c p"
  shows "getParent sc c \<noteq> p"
proof
  assume par: "getParent sc c = p"
  from desc assms(1) have "c \<noteq> p" by (auto simp: tree_like_def)
  with par assms(1) have "c \<in> set (echildren (ent sc p))"
    by (auto simp: getParent_def tree_like_def)
  then have "descendant sc p c" by (simp add: descendant.child)
  then have "descendant sc c c" using desc by (rule descendant_trans)
  with assms(1) show False by (simp add: tree_like_def)
qed

lemma no_children_no_descendant:
  "echildren (ent sc a) = [] \<Longrightarrow> \<not> descendant sc a x"
  using descendant_has_child by blast

lemma scene0_unattached:
  "\<forall>e. eparent (ent scene0 e) = e \<and> echildren (ent scene0 e) = []"
  by (simp add: scene0_def entity0_def)

lemma run_scene2:
  "run [AddEntityChild (EntityRef 1) (EntityRef 2), AddEntityChild (EntityRef 2) (EntityRef 3)]
       (init_attributes, scene0) = (init_attributes, scene2)"
proof -
  let ?sc1 = "scene0\<lparr>ent := ((ent scene0)(1 := (ent scene0 1)\<lparr>echildren := echildren (ent scene0 1) @ [2]\<rparr>))
                          (2 := (ent scene0 2)\<lparr>eparent := 1\<rparr>)\<rparr>"
  have n1: "\<not> descendant scene0 2 1"
    by (rule no_children_no_descendant) (simp add: scene0_def entity0_def)
  then have a1: "Entity_add scene0 1 (EntityNode 2) = Returned () ?sc1"
    by (simp add: Entity_add_def)
  have s1: "addEntityChild init_attributes scene0 (EntityRef 1) (EntityRef 2)
      = Returned PyNone (init_attributes, ?sc1)"
    using a1 by (simp add: addEntityChild_def getParent_def scene0_def entity0_def)
  have n2: "\<not> descendant ?sc1 3 2"
    by (rule no_children_no_descendant) (simp add: scene0_def entity0_def)
  then have a2: "Entity_add ?sc1 2 (EntityNode 3) = Returned () scene2"
    by (simp add: Entity_add_def) (simp add: scene0_def scene2_def entity0_def fun_eq_iff)
  have s2: "addEntityChild init_attributes ?sc1 (EntityRef 2) (EntityRef 3)
      = Returned PyNone (init_attributes, scene2)"
    using a2 by (simp add: addEntityChild_def getParent_def scene0_def entity0_def)
  from s1 s2 show ?thesis by simp
qed

section \<open>addEntityChild and cycles\<close>

text \<open>
  Claim C6, as stated, fails: an unattached Entity is its own parent, so the test of
  \<open>addEntityChild(x, x)\<close> finds the relationship present, \<open>add\<close> is not called and nothing
  is raised.
\<close>

theorem addEntityChild_self_counterexample:
  "addEntityChild init_attributes scene0 (EntityRef 1) (EntityRef 1)
     = Returned PyNone (init_attributes, scene0)"
  by (simp add: addEntityChild_def getParent_def scene0_def entity0_def)

text \<open>
  Claim C6, amended: in every scene that registry calls have built from unattached
  Entities, \<open>addEntityChild(x, x)\<close> fails with \<open>InvalidHierarchy\<close> when the parent reference of
  \<open>x\<close> is another Entity, and returns without failing when \<open>x\<close> is unattached (its own
  parent); and for every \<open>p\<close> that is a descendant of \<open>c\<close>, \<open>addEntityChild(p, c)\<close> fails with
  \<open>InvalidHierarchy\<close>.  The registry and the scene are unchanged in all three cases.
\<close>

theorem addEntityChild_cycle:
  assumes "\<forall>e. eparent (ent sc0 e) = e \<and> echildren (ent sc0 e) = []"
    and "run calls (m0, sc0) = (m, sc)"
  shows "(getParent sc x = x \<longrightarrow>
      addEntityChild m sc (EntityRef x) (EntityRef x) = Returned PyNone (m, sc))
   \<and> (getParent sc x \<noteq> x \<longrightarrow>
      addEntityChild m sc (EntityRef x) (EntityRef x) = Raised InvalidHierarchy (m, sc))
   \<and> (descendant sc c p \<longrightarrow>
      addEntityChild m sc (EntityRef p) (EntityRef c) = Raised InvalidHierarchy (m, sc))"
proof -
  from assms(1) have "tree_like (snd (m0, sc0))" by (simp add: unattached_tree_like)
  then have "tree_like (snd (run calls (m0, sc0)))" by (rule run_tree_like)
  with assms(2) have tl: "tree_like sc" by simp
  have "addEntityChild m sc (EntityRef p) (EntityRef c) = Raised InvalidHierarchy (m, sc)"
    if "descendant sc c p"
  proof -
    from tl that have "getParent sc c \<noteq> p" by (rule descendant_parent_differs)
    with that show ?thesis by (simp add: addEntityChild_def Entity_add_def)
  qed
  then show ?thesis by (simp add: addEntityChild_def Entity_add_def)
qed

lemma descendant_scene2: "descendant scene2 1 3"
proof -
  have "descendant scene2 1 2"
    by (rule descendant.child) (simp add: scene2_def)
  then show ?thesis
    by (rule descendant.below) (simp add: scene2_def)
qed

theorem addEntityChild_cycle_witness:
  "(\<forall>e. eparent (ent scene0 e) = e \<and> echildren (ent scene0 e) = [])
   \<and> run [AddEntityChild (EntityRef 1) (EntityRef 2), AddEntityChild (EntityRef 2) (EntityRef 3)]
        (init_attributes, scene0) = (init_attributes, scene2)
   \<and> getParent scene2 1 = 1
   \<and> addEntityChild init_attributes scene2 (EntityRef 1) (EntityRef 1)
       = Returned PyNone (init_attributes, scene2)
   \<and> getParent scene2 2 \<noteq> 2
   \<and> addEntityChild init_attributes scene2 (EntityRef 2) (EntityRef 2)
       = Raised InvalidHierarchy (init_attributes, scene2)
   \<and> descendant scene2 1 3
   \<and> addEntityChild init_attributes scene2 (EntityRef 3) (EntityRef 1)
       = Raised InvalidHierarchy (init_attributes, scene2)"
proof -
  note inst = addEntityChild_cycle [OF scene0_unattached run_scene2]
  have p1: "getParent scene2 1 = 1" by (simp add: getParent_def scene2_def)
  have p2: "getParent scene2 2 \<noteq> 2" by (simp add: getParent_def scene2_def)
  from inst [of 1] p1
  have r1: "addEntityChild init_attributes scene2 (EntityRef 1) (EntityRef 1)
       = Returned PyNone (init_attributes, scene2)" by blast
  from inst [of 2] p2
  have r2: "addEntityChild init_attributes scene2 (EntityRef 2) (EntityRef 2)
       = Raised InvalidHierarchy (init_attributes, scene2)" by blast
  from inst [of _ 1 3] descendant_scene2
  have r3: "addEntityChild init_attributes scene2 (EntityRef 3) (EntityRef 1)
       = Raised InvalidHierarchy (init_attributes, scene2)" by blast
  from p1 p2 r1 r2 r3 descendant_scene2 scene0_unattached run_scene2 show ?thesis by simp
qed

section \<open>accept on a System that does not support the component\<close>

text \<open>
  Claim C7: for every Component \<open>c\<close> and every System variant \<open>s\<close>, \<open>c.accept(s)\<close> completes
  without failure, and when \<open>s\<close> does not support the class of \<open>c\<close> the call changes
  nothing.
\<close>

theorem accept_unsupported_kind:
  "(\<exists>sc'. accept (System_obj k body) c sc = Returned () sc')
   \<and> (\<not> supports k (class_of (comp sc c)) \<longrightarrow> accept (System_obj k body) c sc = Returned () sc)"
  by (cases k; cases "class_of (comp sc c)")
     (simp_all add: accept_def BasicTransform_accept_def Camera_accept_def RenderMesh_accept_def
        call_method_def System_obj_def)

theorem accept_unsupported_kind_witness:
  "\<not> supports RenderSystem (class_of (comp scene0 5))
   \<and> accept (System_obj RenderSystem body0) 5 scene0 = Returned () scene0"
proof -
  have u: "\<not> supports RenderSystem (class_of (comp scene0 5))"
    by (simp add: scene0_def component0_def)
  with accept_unsupported_kind [of RenderSystem body0 5 scene0] show ?thesis by blast
qed

text \<open>
  \<open>accept\<close> adds no failure of its own: it returns on every object that has the two
  methods, provided they return.  It checks nothing either: on an object that lacks one of
  them it raises.
\<close>

lemma accept_returns:
  assumes "apply_method system = Some f" and "applyCamera_method system = Some g"
    and "\<And>c sc. \<exists>sc'. f c sc = Returned () sc'"
    and "\<And>c sc. \<exists>sc'. g c sc = Returned () sc'"
  shows "\<exists>sc'. accept system self sc = Returned () sc'"
proof -
  from assms(3) obtain sc1 where f: "f self sc = Returned () sc1" by blast
  from assms(4) obtain sc2 where g: "g self sc1 = Returned () sc2" by blast
  from assms(1,2) f g show ?thesis
    by (cases "class_of (comp sc self)")
       (simp_all add: accept_def BasicTransform_accept_def Camera_accept_def
          RenderMesh_accept_def call_method_def)
qed

lemma accept_missing_method:
  "class_of (comp sc c) = BasicTransformClass \<Longrightarrow>
   accept \<lparr>apply_method = Some (\<lambda>c sc. Returned () sc), applyCamera_method = None\<rparr> c sc
     = Raised AttributeError sc"
  by (simp add: accept_def BasicTransform_accept_def call_method_def)

section \<open>BasicTransform.update\<close>

lemma update_fields:
  "l2world (BasicTransform_update t kw) = (case kw ''l2world'' of Some v \<Rightarrow> v | None \<Rightarrow> l2world t)"
  "trs (BasicTransform_update t kw) = (case kw ''trs'' of Some v \<Rightarrow> v | None \<Rightarrow> trs t)"
  "l2cam (BasicTransform_update t kw) = (case kw ''l2cam'' of Some v \<Rightarrow> v | None \<Rightarrow> l2cam t)"
  "name (BasicTransform_update t kw) = name t"
  "ctype (BasicTransform_update t kw) = ctype t"
  "ident (BasicTransform_update t kw) = ident t"
  "parent (BasicTransform_update t kw) = parent t"
  "children (BasicTransform_update t kw) = children t"
  by (simp_all add: BasicTransform_update_def split: option.splits)

text \<open>
  Claim C8: \<open>t.update(options)\<close> overwrites, among \<open>trs\<close>, \<open>l2world\<close> and \<open>l2cam\<close>, exactly the
  fields whose name is a key of \<open>options\<close>, with the value given; every other field keeps
  its value; and two dictionaries that agree on these three names give the same result, so
  any other option is ignored.
\<close>

theorem BasicTransform_update_overwrites:
  "l2world (BasicTransform_update t kw) = (case kw ''l2world'' of Some v \<Rightarrow> v | None \<Rightarrow> l2world t)
   \<and> trs (BasicTransform_update t kw) = (case kw ''trs'' of Some v \<Rightarrow> v | None \<Rightarrow> trs t)
   \<and> l2cam (BasicTransform_update t kw) = (case kw ''l2cam'' of Some v \<Rightarrow> v | None \<Rightarrow> l2cam t)
   \<and> name (BasicTransform_update t kw) = name t
   \<and> ctype (BasicTransform_update t kw) = ctype t
   \<and> ident (BasicTransform_update t kw) = ident t
   \<and> parent (BasicTransform_update t kw) = parent t
   \<and> children (BasicTransform_update t kw) = children t
   \<and> (\<forall>kw'. kw' ''l2world'' = kw ''l2world'' \<and> kw' ''trs'' = kw ''trs'' \<and> kw' ''l2cam'' = kw ''l2cam''
          \<longrightarrow> BasicTransform_update t kw' = BasicTransform_update t kw)"
proof -
  have "BasicTransform_update t kw' = BasicTransform_update t kw"
    if "kw' ''l2world'' = kw ''l2world''" "kw' ''trs'' = kw ''trs''" "kw' ''l2cam'' = kw ''l2cam''"
    for kw'
    using that by (simp add: BasicTransform_update_def)
  then show ?thesis by (simp add: update_fields)
qed

theorem BasicTransform_update_overwrites_witness:
  "BasicTransform_update (transform0 5) [''trs'' \<mapsto> 7, ''colour'' \<mapsto> 9]
     = BasicTransform_update (transform0 5) [''trs'' \<mapsto> 7]
   \<and> BasicTransform_update (transform0 5) [''trs'' \<mapsto> 7] = (transform0 5)\<lparr>trs := 7\<rparr>"
proof -
  have same: "[''trs'' \<mapsto> 7::nat, ''colour'' \<mapsto> 9] ''l2world'' = [''trs'' \<mapsto> 7] ''l2world''
      \<and> [''trs'' \<mapsto> 7::nat, ''colour'' \<mapsto> 9] ''trs'' = [''trs'' \<mapsto> 7] ''trs''
      \<and> [''trs'' \<mapsto> 7::nat, ''colour'' \<mapsto> 9] ''l2cam'' = [''trs'' \<mapsto> 7] ''l2cam''"
    by simp
  from BasicTransform_update_overwrites [of "transform0 5" "[''trs'' \<mapsto> 7]"]
  have "\<forall>kw'. kw' ''l2world'' = [''trs'' \<mapsto> 7::nat] ''l2world'' \<and> kw' ''trs'' = [''trs'' \<mapsto> 7::nat] ''trs''
            \<and> kw' ''l2cam'' = [''trs'' \<mapsto> 7::nat] ''l2cam''
          \<longrightarrow> BasicTransform_update (transform0 5) kw' = BasicTransform_update (transform0 5) [''trs'' \<mapsto> 7]"
    by blast
  with same have "BasicTransform_update (transform0 5) [''trs'' \<mapsto> 7, ''colour'' \<mapsto> 9]
     = BasicTransform_update (transform0 5) [''trs'' \<mapsto> 7]"
    by blast
  moreover have "BasicTransform_update (transform0 5) [''trs'' \<mapsto> 7] = (transform0 5)\<lparr>trs := 7\<rparr>"
    by (simp add: BasicTransform_update_def transform0_def)
  ultimately show ?thesis by simp
qed

section \<open>The singleton\<close>

lemma ECSSManager_instance:
  "cls_instance (snd (ECSSManager p)) = Some (fst (ECSSManager p))"
  by (simp add: ECSSManager_def ECSSManager_new_def ECSSManager_init_def Let_def
      split: option.splits)

lemma ECSSManager_existing:
  "cls_instance p = Some r \<Longrightarrow> fst (ECSSManager p) = r"
  by (simp add: ECSSManager_def ECSSManager_new_def ECSSManager_init_def)

lemma ECSSManager_keeps_instance:
  "cls_instance p = Some r \<Longrightarrow> cls_instance (snd (ECSSManager p)) = Some r"
  by (simp add: ECSSManager_def ECSSManager_new_def ECSSManager_init_def)

lemma client_keeps_instance:
  "cls_instance p = Some r \<Longrightarrow> cls_instance (client steps p) = Some r"
proof (induction steps arbitrary: p)
  case Nil
  then show ?case by simp
next
  case (Cons s steps)
  show ?case
  proof (cases s)
    case Construct
    with Cons show ?thesis by (simp add: ECSSManager_keeps_instance)
  next
    case (Method a f)
    with Cons show ?thesis by simp
  qed
qed

lemma ECSSManager_same_instance:
  "fst (ECSSManager (client steps (snd (ECSSManager p)))) = fst (ECSSManager p)"
proof -
  have "cls_instance (client steps (snd (ECSSManager p))) = Some (fst (ECSSManager p))"
    by (rule client_keeps_instance) (rule ECSSManager_instance)
  then show ?thesis by (rule ECSSManager_existing)
qed

lemma ECSSManager_objects:
  "objects (snd (ECSSManager p)) (fst (ECSSManager p)) = Some init_attributes"
  by (simp add: ECSSManager_def ECSSManager_new_def ECSSManager_init_def Let_def
      split: option.splits)

text \<open>
  Claim C9: the first construction creates the instance (at a fresh address when
  \<open>_instance\<close> is \<open>None\<close>) and stores it in \<open>_instance\<close>; every later construction, whatever
  the client constructed or called in between, returns that same instance.
\<close>

theorem ECSSManager_singleton:
  "fst (ECSSManager (client steps (snd (ECSSManager p)))) = fst (ECSSManager p)
   \<and> cls_instance (snd (ECSSManager p)) = Some (fst (ECSSManager p))
   \<and> fst (ECSSManager p) = (case cls_instance p of None \<Rightarrow> next_addr p | Some r \<Rightarrow> r)"
proof -
  have "fst (ECSSManager p) = (case cls_instance p of None \<Rightarrow> next_addr p | Some r \<Rightarrow> r)"
    by (simp add: ECSSManager_def ECSSManager_new_def Let_def split: option.splits)
  then show ?thesis by (simp add: ECSSManager_instance ECSSManager_same_instance)
qed

text \<open>
  Claim C10: every construction, the first one and every later one that returns the
  existing instance, leaves the instance with the attributes of \<open>__init__\<close>: all four
  lists and the dictionary empty, the counter 0 and no root, whatever the registry held
  before.
\<close>

theorem ECSSManager_resets:
  "objects (snd (ECSSManager p)) (fst (ECSSManager p)) = Some init_attributes
   \<and> objects (snd (ECSSManager (client steps (snd (ECSSManager p))))) (fst (ECSSManager p))
       = Some init_attributes
   \<and> init_attributes =
       \<lparr>systems = [], components = [], entities = [], cameras = [],
        entities_components = [], next_entity_id = 0, root = None\<rparr>"
proof -
  let ?q = "client steps (snd (ECSSManager p))"
  have "objects (snd (ECSSManager ?q)) (fst (ECSSManager ?q)) = Some init_attributes"
    by (rule ECSSManager_objects)
  then have "objects (snd (ECSSManager ?q)) (fst (ECSSManager p)) = Some init_attributes"
    by (simp add: ECSSManager_same_instance)
  then show ?thesis by (simp add: ECSSManager_objects) (simp add: init_attributes_def)
qed

text \<open>
  A registry that holds entity 1 with component 5 is empty again after the next
  construction.
\<close>

lemma construction_empties_registry_example:
  "objects (snd (ECSSManager
      (client [Method 0 (\<lambda>m. manager1)]
         (snd (ECSSManager \<lparr>cls_instance = None, objects = (\<lambda>r. None), next_addr = 0\<rparr>))))) 0
     = Some init_attributes
   \<and> objects (client [Method 0 (\<lambda>m. manager1)]
         (snd (ECSSManager \<lparr>cls_instance = None, objects = (\<lambda>r. None), next_addr = 0\<rparr>))) 0
     = Some manager1"
  by (simp add: ECSSManager_def ECSSManager_new_def ECSSManager_init_def)

end
